theory Spec2Isabelle
  imports Main
begin

section \<open>Go values the package works with\<close>

text \<open>
  The package \<open>util\<close> of ipfs-update (file \<open>util/utils.go\<close>). Go strings are byte
  sequences, so a Go string is a \<open>string\<close> (a \<open>char list\<close>) here. A Go \<open>error\<close> is
  represented by its message. A run-time panic is a value of its own, so that every
  way a function can end is a result of the model.
\<close>

type_synonym error = string

datatype panic = SliceBoundsOutOfRange | IndexOutOfRange | NilDereference

subsection \<open>\<open>strings.Split\<close> with a one-byte separator\<close>

text \<open>
  \<open>strings.Split(s, sep)\<close> cuts \<open>s\<close> at every occurrence of \<open>sep\<close>; a string without
  the separator (the empty string too) gives one field.
\<close>

fun Split :: "string \<Rightarrow> char \<Rightarrow> string list" where
  "Split [] sep = [[]]"
| "Split (c # cs) sep =
     (if c = sep then [] # Split cs sep
      else (case Split cs sep of
              [] \<Rightarrow> [[c]]
            | p # ps \<Rightarrow> (c # p) # ps))"

subsection \<open>\<open>strconv.Atoi\<close>\<close>

text \<open>
  \<open>strconv.Atoi\<close> accepts an optional sign followed by at least one decimal digit and
  nothing else, and fails with a range error when the value does not fit \<open>int\<close>. The
  type \<open>int\<close> of Go is taken with 64 bits.
\<close>

definition is_digit :: "char \<Rightarrow> bool" where
  "is_digit c = (48 \<le> (of_char c :: int) \<and> (of_char c :: int) \<le> 57)"

definition digit_val :: "char \<Rightarrow> int" where
  "digit_val c = of_char c - 48"

definition decimal :: "string \<Rightarrow> int" where
  "decimal ds = foldl (\<lambda>n c. n * 10 + digit_val c) 0 ds"

definition intSize :: nat where
  "intSize = 64"

definition Atoi :: "string \<Rightarrow> int option" where
  "Atoi s =
     (let neg = (s \<noteq> [] \<and> hd s = CHR ''-'');
          ds = (if s \<noteq> [] \<and> (hd s = CHR ''-'' \<or> hd s = CHR ''+'') then tl s else s)
      in if ds \<noteq> [] \<and> list_all is_digit ds
         then (let n = decimal ds
               in if neg then (if n \<le> 2 ^ (intSize - 1) then Some (- n) else None)
                  else (if n < 2 ^ (intSize - 1) then Some n else None))
         else None)"

section \<open>\<open>BeforeVersion\<close>\<close>

text \<open>
  The loop \<open>for i := 0; i < 3; i++\<close> of \<open>BeforeVersion\<close>, started at \<open>i\<close>. Indexing
  \<open>aparts[i]\<close> or \<open>bparts[i]\<close> beyond the slice panics; a component \<open>Atoi\<close> rejects
  ends the comparison with \<open>false\<close>.
\<close>

function BeforeVersion_loop :: "string list \<Rightarrow> string list \<Rightarrow> nat \<Rightarrow> panic + bool" where
  "BeforeVersion_loop aparts bparts i =
     (if i < 3 then
        (if length aparts \<le> i then Inl IndexOutOfRange
         else case Atoi (aparts ! i) of
           None \<Rightarrow> Inr False
         | Some an \<Rightarrow>
             (if length bparts \<le> i then Inl IndexOutOfRange
              else case Atoi (bparts ! i) of
                None \<Rightarrow> Inr False
              | Some bn \<Rightarrow>
                  (if bn < an then Inr True
                   else if bn > an then Inr False
                   else BeforeVersion_loop aparts bparts (i + 1))))
      else Inr False)"
  by pat_completeness auto
termination
  by (relation "measure (\<lambda>(aparts, bparts, i). 3 - i)") auto

declare BeforeVersion_loop.simps [simp del]

text \<open>\<open>check[1:]\<close> and \<open>cur[1:]\<close> panic on the empty string.\<close>

definition BeforeVersion :: "string \<Rightarrow> string \<Rightarrow> panic + bool" where
  "BeforeVersion check cur =
     (if check = [] then Inl SliceBoundsOutOfRange
      else if cur = [] then Inl SliceBoundsOutOfRange
      else BeforeVersion_loop (Split (tl check) CHR ''.'') (Split (tl cur) CHR ''.'') 0)"

subsection \<open>Well-formed version strings\<close>

text \<open>
  A numeric component is a non-empty string of decimal digits. A well-formed version
  string is one byte of prefix followed by exactly three numeric components separated
  by dots. Its components are in range when each fits Go's \<open>int\<close>.
\<close>

definition numeric :: "string \<Rightarrow> bool" where
  "numeric p = (p \<noteq> [] \<and> list_all is_digit p)"

definition wellformed :: "string \<Rightarrow> bool" where
  "wellformed v =
     (v \<noteq> [] \<and> length (Split (tl v) CHR ''.'') = 3
      \<and> list_all numeric (Split (tl v) CHR ''.''))"

definition in_range :: "string \<Rightarrow> bool" where
  "in_range v = list_all (\<lambda>p. decimal p < 2 ^ (intSize - 1)) (Split (tl v) CHR ''.'')"

definition component :: "string \<Rightarrow> nat \<Rightarrow> int" where
  "component v i = decimal (Split (tl v) CHR ''.'' ! i)"

section \<open>Readers\<close>

text \<open>
  An \<open>io.Reader\<close> is either a source or an \<open>io.LimitedReader\<close> around a reader. A source
  \<open>Stream d f\<close> still holds the bytes \<open>d\<close>; once they are read it reports end of stream
  (\<open>f = None\<close>) or the read error \<open>f\<close>. A read with a buffer of \<open>k\<close> bytes hands out
  as many of the pending bytes as the buffer takes and returns the reader's new state.
\<close>

datatype ioerr = EOF | ReadError error

datatype reader = Stream string "error option" | LimitedReader reader int

text \<open>
  \<open>LimitedReader.Read\<close>: at \<open>N \<le> 0\<close> it returns \<open>EOF\<close> without reading; otherwise it cuts
  the buffer to \<open>N\<close> bytes, reads from \<open>R\<close> and lowers \<open>N\<close> by the number of bytes read.
\<close>

fun Read :: "reader \<Rightarrow> nat \<Rightarrow> string \<times> ioerr option \<times> reader" where
  "Read (Stream d f) k =
     (if d = [] then ([], Some (case f of None \<Rightarrow> EOF | Some e \<Rightarrow> ReadError e), Stream d f)
      else (take k d, None, Stream (drop k d) f))"
| "Read (LimitedReader r n) k =
     (if n \<le> 0 then ([], Some EOF, LimitedReader r n)
      else (case Read r (if n < int k then nat n else k) of
              (bs, er, r') \<Rightarrow> (bs, er, LimitedReader r' (n - int (length bs)))))"

text \<open>
  \<open>newLimitReadCloser\<close> builds \<open>limitReadCloser{Reader: io.LimitReader(rc, limit), Closer: rc}\<close>.
  Both fields refer to the one object \<open>rc\<close>, which the limited reader holds here.
\<close>

definition newLimitReadCloser :: "reader \<Rightarrow> int \<Rightarrow> reader" where
  "newLimitReadCloser rc limit = LimitedReader rc limit"

definition fetchSizeLimit :: int where
  "fetchSizeLimit = 1024 * 1024 * 512"

text \<open>The bytes a reader still has to give, and what it reports after them.\<close>

fun content :: "reader \<Rightarrow> string" where
  "content (Stream d f) = d"
| "content (LimitedReader r n) = take (nat n) (content r)"

fun ending :: "reader \<Rightarrow> error option" where
  "ending (Stream d f) = f"
| "ending (LimitedReader r n) = (if int (length (content r)) < n then ending r else None)"

fun pending :: "reader \<Rightarrow> nat" where
  "pending (Stream d f) = length d"
| "pending (LimitedReader r n) = pending r"

lemma Read_progress:
  "Read r (Suc m) = (bs, None, r') \<Longrightarrow> pending r' < pending r"
proof (induction r arbitrary: m bs r')
  case (Stream d f)
  then show ?case by (auto split: if_splits)
next
  case (LimitedReader r n)
  from LimitedReader.prems have pos: "0 < n"
    by (auto split: if_splits)
  define k where "k = (if n < int (Suc m) then nat n else Suc m)"
  with pos have "k \<noteq> 0" by auto
  then obtain m' where k: "k = Suc m'"
    by (cases k) auto
  obtain cs er q where rd: "Read r (Suc m') = (cs, er, q)"
    by (cases "Read r (Suc m')") auto
  with LimitedReader.prems pos k have "er = None" and "r' = LimitedReader q (n - int (length cs))"
    unfolding k_def by (auto split: if_splits)
  with rd LimitedReader.IH[of m' cs q] show ?case by simp
qed

text \<open>
  The loop of \<open>io.Copy\<close> with a buffer of \<open>Suc m\<close> bytes (the buffer is never empty): read,
  write what was read, stop at end of stream or at the first error. The destination
  either takes every write (\<open>wfail = None\<close>) or fails each write with the error \<open>wfail\<close>.
  The result is the bytes written, the error (\<open>None\<close> for \<open>nil\<close>: end of stream is not an
  error) and the source's state afterwards.
\<close>

function copy_loop :: "nat \<Rightarrow> error option \<Rightarrow> reader \<Rightarrow> string \<Rightarrow> string \<times> error option \<times> reader" where
  "copy_loop m wfail src written =
     (case Read src (Suc m) of
        (bs, er, src') \<Rightarrow>
          if bs \<noteq> [] \<and> wfail \<noteq> None then (written, wfail, src')
          else (case er of
                  Some EOF \<Rightarrow> (written @ bs, None, src')
                | Some (ReadError e) \<Rightarrow> (written @ bs, Some e, src')
                | None \<Rightarrow> copy_loop m wfail src' (written @ bs)))"
  by pat_completeness auto
termination
  by (relation "measure (\<lambda>(m, wfail, src, written). pending src)")
     (auto dest: Read_progress[OF sym])

declare copy_loop.simps [simp del]

text \<open>\<open>io.Copy\<close> works with a buffer of 32 KiB, \<open>ioutil.ReadAll\<close> starts with 512 bytes.\<close>

definition io_Copy :: "error option \<Rightarrow> reader \<Rightarrow> string \<times> error option \<times> reader" where
  "io_Copy wfail src = copy_loop (32 * 1024 - 1) wfail src []"

definition ReadAll :: "reader \<Rightarrow> string \<times> error option \<times> reader" where
  "ReadAll r = copy_loop 511 None r []"

section \<open>The world outside the package\<close>

text \<open>
  What the calls into the network, the file system, the daemon and the operating
  system answer is a parameter of the model. \<open>Head\<close> and \<open>Do\<close> are \<open>http.Head\<close> and
  \<open>http.DefaultClient.Do\<close> by URL; \<open>Inl err\<close> stands for Go's \<open>(nil, err)\<close>. \<open>TempFile\<close> is
  \<open>ioutil.TempFile\<close>, answering the name of the file it made. \<open>temp_write_error\<close> is the
  error of a write to that file, if writes fail. \<open>progress_receives\<close> tells whether the
  \<open>PrintProgress\<close> goroutine is still in its loop, so that it takes the value sent on
  the unbuffered channel \<open>done\<close>; it has left the loop when it could not open or stat the
  file. \<open>Quote\<close> is \<open>strconv.Quote\<close> (the verb \<open>%q\<close>) and \<open>Join\<close> is \<open>filepath.Join\<close>.
  \<open>IsUp\<close> and \<open>Cat\<close> are the daemon client's calls by endpoint. \<open>CombinedOutput\<close> runs
  a command with \<open>IPFS_PATH\<close> added to the environment. \<open>GlobalGatewayUrl\<close> is the
  package variable of that name.
\<close>

record head_response =
  ContentLength :: string

record response =
  StatusCode :: int
  Status :: string
  Body :: reader

record world =
  Head :: "string \<Rightarrow> error + head_response"
  TempFile :: "error + string"
  NewRequest :: "string \<Rightarrow> error option"
  Do :: "string \<Rightarrow> error + response"
  temp_write_error :: "error option"
  progress_receives :: bool
  Quote :: "string \<Rightarrow> string"
  Join :: "string \<Rightarrow> string \<Rightarrow> string"
  Getenv :: "string \<Rightarrow> string"
  ReadFile :: "string \<Rightarrow> error + string"
  IsUp :: "string \<Rightarrow> bool"
  Cat :: "string \<Rightarrow> string \<Rightarrow> error + reader"
  CombinedOutput :: "string \<Rightarrow> string \<Rightarrow> string list \<Rightarrow> string \<times> error option"
  GlobalGatewayUrl :: string

text \<open>
  A call returns, panics, or blocks for ever. Next to its outcome a function gives, in
  order, the requests it has issued, its call of \<open>ioutil.TempFile\<close> (\<open>TempCreate\<close>) and
  the deferred removal of the file that call made (\<open>TempRemove\<close>).
\<close>

datatype 'a outcome = Returns 'a | Panics panic | Blocks

datatype event =
    HttpHead string
  | HttpGet string
  | TempCreate
  | TempRemove string
  | DaemonIsUp string
  | DaemonCat string string

text \<open>The message of the \<open>*strconv.NumError\<close> that \<open>Atoi\<close> returns for \<open>s\<close>.\<close>

definition NumError :: "world \<Rightarrow> string \<Rightarrow> error" where
  "NumError w s =
     ''strconv.Atoi: parsing '' @ Quote w s @ '': '' @
     (let ds = (if s \<noteq> [] \<and> (hd s = CHR ''-'' \<or> hd s = CHR ''+'') then tl s else s)
      in if ds \<noteq> [] \<and> list_all is_digit ds then ''value out of range'' else ''invalid syntax'')"

section \<open>\<open>httpGet\<close> and \<open>httpFetch\<close>\<close>

text \<open>
  \<open>httpGet\<close>, statement by statement. The error of \<open>http.Head\<close> is overwritten by the one
  of \<open>ioutil.TempFile\<close> before it is looked at. \<open>out.Name()\<close> is evaluated when the
  \<open>defer\<close> statement runs, on a nil file when \<open>TempFile\<close> failed. From then on the deferred
  \<open>os.Remove\<close> runs at every exit, a panic included. \<open>headResponse.Header\<close> dereferences
  the nil response of a failed \<open>http.Head\<close>. The response is returned with its body in
  the state \<open>io.Copy\<close> left it in.
\<close>

definition httpGet :: "world \<Rightarrow> string \<Rightarrow> (error + response) outcome \<times> event list" where
  "httpGet w url =
     (let headResponse = (case Head w url of Inl e \<Rightarrow> None | Inr h \<Rightarrow> Some h);
          out = (case TempFile w of Inl e \<Rightarrow> None | Inr name \<Rightarrow> Some name);
          err = (case TempFile w of Inl e \<Rightarrow> Some e | Inr name \<Rightarrow> None)
      in case out of
           None \<Rightarrow> (Panics NilDereference, [HttpHead url, TempCreate])
         | Some name \<Rightarrow>
             (case err of
                Some e \<Rightarrow>
                  (Returns (Inl (''http.Head error: '' @ e)),
                   [HttpHead url, TempCreate, TempRemove name])
              | None \<Rightarrow>
                  (case headResponse of
                     None \<Rightarrow> (Panics NilDereference, [HttpHead url, TempCreate, TempRemove name])
                   | Some h \<Rightarrow>
                       (case Atoi (ContentLength h) of
                          None \<Rightarrow>
                            (Returns (Inl (''http.Head Content-Length error: ''
                                           @ NumError w (ContentLength h))),
                             [HttpHead url, TempCreate, TempRemove name])
                        | Some sz \<Rightarrow>
                            (case NewRequest w url of
                               Some e \<Rightarrow>
                                 (Returns (Inl (''http.NewRequest error: '' @ e)),
                                  [HttpHead url, TempCreate, TempRemove name])
                             | None \<Rightarrow>
                                 (case Do w url of
                                    Inl e \<Rightarrow>
                                      (Returns (Inl (''http.DefaultClient.Do error: '' @ e)),
                                       [HttpHead url, TempCreate, HttpGet url, TempRemove name])
                                  | Inr resp \<Rightarrow>
                                      (case io_Copy (temp_write_error w) (Body resp) of
                                         (written, Some e, body') \<Rightarrow>
                                           (Returns (Inl (''Error writing temp file to disk: '' @ e)),
                                            [HttpHead url, TempCreate, HttpGet url, TempRemove name])
                                       | (written, None, body') \<Rightarrow>
                                           if progress_receives w
                                           then (Returns (Inr (resp\<lparr>Body := body'\<rparr>)),
                                                 [HttpHead url, TempCreate, HttpGet url,
                                                  TempRemove name])
                                           else (Blocks,
                                                 [HttpHead url, TempCreate, HttpGet url]))))))))"

definition httpFetch :: "world \<Rightarrow> string \<Rightarrow> (error + reader) outcome \<times> event list" where
  "httpFetch w url =
     (case httpGet w url of
        (Panics p, t) \<Rightarrow> (Panics p, t)
      | (Blocks, t) \<Rightarrow> (Blocks, t)
      | (Returns (Inl err), t) \<Rightarrow> (Returns (Inl err), t)
      | (Returns (Inr resp), t) \<Rightarrow>
          if StatusCode resp \<ge> 400 then
            (case ReadAll (Body resp) of
               (mes, Some e, body') \<Rightarrow> (Returns (Inl (''error reading error body: '' @ e)), t)
             | (mes, None, body') \<Rightarrow> (Returns (Inl (Status resp @ '': '' @ mes)), t))
          else (Returns (Inr (newLimitReadCloser (Body resp) fetchSizeLimit)), t))"

section \<open>\<open>ApiEndpoint\<close>, \<open>IpfsDir\<close> and \<open>Fetch\<close>\<close>

definition ApiEndpoint :: "world \<Rightarrow> string \<Rightarrow> error + string" where
  "ApiEndpoint w ipfspath =
     (let apifile = Join w ipfspath ''api''
      in case ReadFile w apifile of
           Inl err \<Rightarrow> Inl err
         | Inr val \<Rightarrow>
             (let parts = Split val CHR ''/''
              in if length parts \<noteq> 5
                 then Inl (''incorrectly formatted api string: '' @ Quote w val)
                 else Inr (parts ! 2 @ '':'' @ parts ! 4)))"

definition IpfsDir :: "world \<Rightarrow> string" where
  "IpfsDir w =
     (let def = Join w (Getenv w ''HOME'') ''.ipfs'';
          ipfs_path = Getenv w ''IPFS_PATH''
      in if ipfs_path \<noteq> [] then ipfs_path else def)"

definition Fetch :: "world \<Rightarrow> string \<Rightarrow> (error + reader) outcome \<times> event list" where
  "Fetch w ipfspath =
     (case ApiEndpoint w (IpfsDir w) of
        Inr ep \<Rightarrow>
          if IsUp w ep then
            (case Cat w ep ipfspath of
               Inl err \<Rightarrow> (Returns (Inl err), [DaemonIsUp ep, DaemonCat ep ipfspath])
             | Inr rc \<Rightarrow>
                 (Returns (Inr (newLimitReadCloser rc fetchSizeLimit)),
                  [DaemonIsUp ep, DaemonCat ep ipfspath]))
          else (case httpFetch w (GlobalGatewayUrl w @ ipfspath) of
                  (r, t) \<Rightarrow> (r, DaemonIsUp ep # t))
      | Inl err \<Rightarrow> httpFetch w (GlobalGatewayUrl w @ ipfspath))"

section \<open>\<open>RunCmd\<close>\<close>

text \<open>\<open>out[len(out)-1]\<close> panics on an empty \<open>out\<close>; the byte compared with is the newline.\<close>

definition RunCmd :: "world \<Rightarrow> string \<Rightarrow> string \<Rightarrow> string list \<Rightarrow> (error + string) outcome" where
  "RunCmd w p bin args =
     (case CombinedOutput w p bin args of
        (out, Some err) \<Rightarrow> Returns (Inl (err @ '': '' @ out))
      | (out, None) \<Rightarrow>
          if out = [] then Panics IndexOutOfRange
          else if last out = CHR 0x0A then Returns (Inr (butlast out))
          else Returns (Inr out))"

section \<open>Worlds to run the functions in\<close>

text \<open>
  In \<open>quiet_world\<close> there is no api file, the gateway answers \<open>200 OK\<close> with the body
  \<open>hello\<close>, and commands print nothing. In \<open>daemon_world\<close> the api file names a daemon
  that is up; in \<open>stopped_daemon_world\<close> that daemon is not up. \<open>Quote\<close> puts double
  quotes around its argument, which is what \<open>strconv.Quote\<close> does to printable ASCII
  without quotes and backslashes; \<open>Join\<close> puts a slash between its arguments.
\<close>

definition quiet_world :: world where
  "quiet_world =
     \<lparr> Head = (\<lambda>url. Inr \<lparr> ContentLength = ''5'' \<rparr>),
       TempFile = Inr ''/tmp/ipfs042'',
       NewRequest = (\<lambda>url. None),
       Do = (\<lambda>url. Inr \<lparr> StatusCode = 200, Status = ''200 OK'', Body = Stream ''hello'' None \<rparr>),
       temp_write_error = None,
       progress_receives = True,
       Quote = (\<lambda>s. [CHR 0x22] @ s @ [CHR 0x22]),
       Join = (\<lambda>dir name. dir @ ''/'' @ name),
       Getenv = (\<lambda>key. if key = ''HOME'' then ''/home/user'' else []),
       ReadFile = (\<lambda>path. Inl (''open '' @ path @ '': no such file or directory'')),
       IsUp = (\<lambda>ep. False),
       Cat = (\<lambda>ep path. Inl ''cat: connection refused''),
       CombinedOutput = (\<lambda>p bin args. ([], None)),
       GlobalGatewayUrl = ''https://ipfs.io'' \<rparr>"

definition daemon_world :: world where
  "daemon_world =
     quiet_world\<lparr> ReadFile := (\<lambda>path. Inr ''/ip4/127.0.0.1/tcp/5001''),
                  IsUp := (\<lambda>ep. True),
                  Cat := (\<lambda>ep path. if path = ''/ipns/dist.ipfs.io'' then Inr (Stream ''versions'' None)
                                      else Inl ''merkledag: not found'') \<rparr>"

definition stopped_daemon_world :: world where
  "stopped_daemon_world = daemon_world\<lparr> IsUp := (\<lambda>ep. False) \<rparr>"

section \<open>Properties of \<open>BeforeVersion\<close>\<close>

lemma Split_nonempty: "Split s sep \<noteq> []"
  by (induction s) (auto split: list.splits)

lemma digit_not_sign: "is_digit c \<Longrightarrow> c \<noteq> CHR ''-'' \<and> c \<noteq> CHR ''+''"
  by (auto simp: is_digit_def)

lemma Atoi_numeric:
  assumes "numeric p"
  shows "Atoi p = (if decimal p < 2 ^ (intSize - 1) then Some (decimal p) else None)"
proof -
  from assms obtain c cs where p: "p = c # cs" and d: "is_digit c" and ds: "list_all is_digit cs"
    by (cases p) (auto simp: numeric_def)
  from d have "c \<noteq> CHR ''-''" "c \<noteq> CHR ''+''"
    using digit_not_sign by blast+
  with p d ds show ?thesis
    by (simp add: Atoi_def)
qed

lemma loop_same_gen:
  "a = b \<Longrightarrow> 3 \<le> length a \<Longrightarrow> BeforeVersion_loop a b i = Inr False"
proof (induction a b i rule: BeforeVersion_loop.induct)
  case (1 aparts bparts i)
  show ?case
    using 1 by (subst BeforeVersion_loop.simps) (auto split: option.splits)
qed

lemma loop_total:
  "3 \<le> length a \<Longrightarrow> 3 \<le> length b \<Longrightarrow> \<exists>r. BeforeVersion_loop a b i = Inr r"
proof (induction a b i rule: BeforeVersion_loop.induct)
  case (1 aparts bparts i)
  show ?case
    using 1 by (subst BeforeVersion_loop.simps) (auto split: option.splits)
qed

lemma loop_reject:
  "i \<le> k \<Longrightarrow> k < 3 \<Longrightarrow> 3 \<le> length a \<Longrightarrow> 3 \<le> length b \<Longrightarrow>
   Atoi (a ! k) = None \<or> Atoi (b ! k) = None \<Longrightarrow>
   (\<forall>j. i \<le> j \<and> j < k \<longrightarrow> Atoi (a ! j) \<noteq> None \<and> Atoi (a ! j) = Atoi (b ! j)) \<Longrightarrow>
   BeforeVersion_loop a b i = Inr False"
proof (induction a b i rule: BeforeVersion_loop.induct)
  case (1 aparts bparts i)
  show ?case
  proof (cases "i = k")
    case True
    with 1 show ?thesis
      by (subst BeforeVersion_loop.simps) (auto split: option.splits)
  next
    case False
    with "1.prems" have ik: "i < k" by simp
    have "i \<le> i \<and> i < k" using ik by simp
    with "1.prems"(6) have "Atoi (aparts ! i) \<noteq> None" "Atoi (aparts ! i) = Atoi (bparts ! i)"
      by blast+
    then obtain n where an: "Atoi (aparts ! i) = Some n" and bn: "Atoi (bparts ! i) = Some n"
      by auto
    have i3: "i < 3" using ik "1.prems" by simp
    have la: "\<not> length aparts \<le> i" and lb: "\<not> length bparts \<le> i"
      using i3 "1.prems" by auto
    have rest: "\<forall>j. i + 1 \<le> j \<and> j < k \<longrightarrow>
        Atoi (aparts ! j) \<noteq> None \<and> Atoi (aparts ! j) = Atoi (bparts ! j)"
    proof (intro allI impI)
      fix j
      assume "i + 1 \<le> j \<and> j < k"
      then have "i \<le> j \<and> j < k" by simp
      with "1.prems"(6) show "Atoi (aparts ! j) \<noteq> None \<and> Atoi (aparts ! j) = Atoi (bparts ! j)"
        by blast
    qed
    have "BeforeVersion_loop aparts bparts (i + 1) = Inr False"
      using "1.IH"[OF i3 la an lb bn _ _ _ "1.prems"(2,3,4,5) rest] ik by simp
    with i3 la lb an bn show ?thesis
      by (subst BeforeVersion_loop.simps) simp
  qed
qed

lemma loop_three:
  assumes "Atoi a0 = Some x0" "Atoi a1 = Some x1" "Atoi a2 = Some x2"
    and "Atoi b0 = Some y0" "Atoi b1 = Some y1" "Atoi b2 = Some y2"
  shows "BeforeVersion_loop [a0, a1, a2] [b0, b1, b2] 0 =
    Inr (if y0 \<noteq> x0 then y0 < x0 else if y1 \<noteq> x1 then y1 < x1 else y2 < x2)"
  using assms by (auto simp: BeforeVersion_loop.simps)

lemma wellformed_parts:
  assumes "wellformed v"
  obtains a0 a1 a2 where "Split (tl v) CHR ''.'' = [a0, a1, a2]" "numeric a0" "numeric a1" "numeric a2"
proof -
  let ?ps = "Split (tl v) CHR ''.''"
  from assms have len: "length ?ps = 3" and all: "list_all numeric ?ps"
    by (simp_all add: wellformed_def)
  from len obtain a0 a1 a2 where ps: "?ps = [a0, a1, a2]"
    by (auto simp: length_Suc_conv numeral_3_eq_3)
  with all that show thesis by simp
qed

text \<open>
  Claim C1, as the code has it. For well-formed version strings whose components fit
  Go's \<open>int\<close>, \<open>BeforeVersion check cur\<close> compares major, then minor, then patch, and at
  the first component that differs it returns true when the component of \<open>cur\<close> (the
  second argument) is less than that of \<open>check\<close> (the first), and false when it is
  greater; when all three are equal it returns false.
\<close>

theorem BeforeVersion_first_difference:
  assumes "wellformed check" and "wellformed cur" and "in_range check" and "in_range cur"
  shows "BeforeVersion check cur =
    Inr (if component cur 0 \<noteq> component check 0 then component cur 0 < component check 0
         else if component cur 1 \<noteq> component check 1 then component cur 1 < component check 1
         else component cur 2 < component check 2)"
proof -
  from assms(1) obtain a0 a1 a2 where a: "Split (tl check) CHR ''.'' = [a0, a1, a2]"
    and na: "numeric a0" "numeric a1" "numeric a2"
    by (rule wellformed_parts)
  from assms(2) obtain b0 b1 b2 where b: "Split (tl cur) CHR ''.'' = [b0, b1, b2]"
    and nb: "numeric b0" "numeric b1" "numeric b2"
    by (rule wellformed_parts)
  from assms(3) a have ra: "decimal a0 < 2 ^ (intSize - 1)" "decimal a1 < 2 ^ (intSize - 1)"
      "decimal a2 < 2 ^ (intSize - 1)"
    by (simp_all add: in_range_def)
  from assms(4) b have rb: "decimal b0 < 2 ^ (intSize - 1)" "decimal b1 < 2 ^ (intSize - 1)"
      "decimal b2 < 2 ^ (intSize - 1)"
    by (simp_all add: in_range_def)
  have A: "Atoi a0 = Some (decimal a0)" "Atoi a1 = Some (decimal a1)" "Atoi a2 = Some (decimal a2)"
    using na ra by (simp_all add: Atoi_numeric)
  have B: "Atoi b0 = Some (decimal b0)" "Atoi b1 = Some (decimal b1)" "Atoi b2 = Some (decimal b2)"
    using nb rb by (simp_all add: Atoi_numeric)
  from assms(1,2) have ne: "check \<noteq> []" "cur \<noteq> []"
    by (simp_all add: wellformed_def)
  show ?thesis
    using ne a b loop_three[OF A B] by (simp add: BeforeVersion_def component_def)
qed

text \<open>
  The theorem of C1 at \<open>v2.0.0\<close> against \<open>v1.9.9\<close>: the majors differ, 1 is less than 2,
  and the result is true.
\<close>

theorem BeforeVersion_first_difference_witness:
  "wellformed ''v2.0.0'' \<and> wellformed ''v1.9.9'' \<and> in_range ''v2.0.0'' \<and> in_range ''v1.9.9''
   \<and> component ''v1.9.9'' 0 = 1 \<and> component ''v2.0.0'' 0 = 2
   \<and> BeforeVersion ''v2.0.0'' ''v1.9.9'' = Inr True"
proof -
  have w: "wellformed ''v2.0.0''" "wellformed ''v1.9.9''" "in_range ''v2.0.0''" "in_range ''v1.9.9''"
    by (simp_all add: wellformed_def numeric_def is_digit_def in_range_def decimal_def
        digit_val_def intSize_def)
  have c: "component ''v1.9.9'' 0 = 1" "component ''v2.0.0'' 0 = 2"
    by (simp_all add: component_def decimal_def digit_val_def)
  show ?thesis
    using BeforeVersion_first_difference[OF w] w c by simp
qed

text \<open>
  Claim C1 as stated fails: it reads the result the other way round. On the code
  \<open>BeforeVersion("v1.2.3", "v1.2.4")\<close> is false and \<open>BeforeVersion("v2.0.0", "v1.9.9")\<close> is
  true. A component of decimal digits that does not fit \<open>int\<close> is rejected by \<open>Atoi\<close>, so
  the comparison of \<open>v99999999999999999999.0.0\<close> with \<open>v1.0.0\<close> is false although the
  major of the second is the lesser one.
\<close>

theorem BeforeVersion_direction_counterexample:
  "wellformed ''v1.2.3'' \<and> wellformed ''v1.2.4'' \<and> BeforeVersion ''v1.2.3'' ''v1.2.4'' = Inr False
   \<and> wellformed ''v2.0.0'' \<and> wellformed ''v1.9.9'' \<and> BeforeVersion ''v2.0.0'' ''v1.9.9'' = Inr True
   \<and> wellformed ''v99999999999999999999.0.0'' \<and> wellformed ''v1.0.0''
   \<and> BeforeVersion ''v99999999999999999999.0.0'' ''v1.0.0'' = Inr False"
  by (simp add: BeforeVersion_def BeforeVersion_loop.simps Atoi_def is_digit_def decimal_def
      digit_val_def intSize_def wellformed_def numeric_def)

text \<open>
  Claim C9. For every well-formed version string \<open>v\<close>, \<open>BeforeVersion v v\<close> returns false.
\<close>

theorem BeforeVersion_irreflexive:
  assumes "wellformed v"
  shows "BeforeVersion v v = Inr False"
proof -
  from assms have "v \<noteq> []" "3 \<le> length (Split (tl v) CHR ''.'')"
    by (simp_all add: wellformed_def)
  then show ?thesis
    by (simp add: BeforeVersion_def loop_same_gen)
qed

text \<open>
  The theorem of C9 at \<open>v0.4.23\<close>.
\<close>

theorem BeforeVersion_irreflexive_witness:
  "wellformed ''v0.4.23'' \<and> BeforeVersion ''v0.4.23'' ''v0.4.23'' = Inr False"
proof -
  have w: "wellformed ''v0.4.23''"
    by (simp add: wellformed_def numeric_def is_digit_def)
  show ?thesis using BeforeVersion_irreflexive[OF w] w by simp
qed

text \<open>
  Claim C4, as the code has it. When both strings carry the one-byte prefix and at
  least three dot-separated components, \<open>BeforeVersion\<close> ends with a boolean. The result
  is false when a component that \<open>Atoi\<close> rejects is met at a position \<open>k\<close> before which
  all pairs of components were numeric and equal.
\<close>

theorem BeforeVersion_defined:
  assumes "check \<noteq> []" and "cur \<noteq> []"
    and "3 \<le> length (Split (tl check) CHR ''.'')" and "3 \<le> length (Split (tl cur) CHR ''.'')"
  shows "(\<exists>r. BeforeVersion check cur = Inr r) \<and>
    (\<forall>k. k < 3 \<and> (Atoi (Split (tl check) CHR ''.'' ! k) = None \<or> Atoi (Split (tl cur) CHR ''.'' ! k) = None)
        \<and> (\<forall>j. j < k \<longrightarrow> Atoi (Split (tl check) CHR ''.'' ! j) \<noteq> None
               \<and> Atoi (Split (tl check) CHR ''.'' ! j) = Atoi (Split (tl cur) CHR ''.'' ! j))
      \<longrightarrow> BeforeVersion check cur = Inr False)"
proof (intro conjI allI impI)
  show "\<exists>r. BeforeVersion check cur = Inr r"
    using assms by (simp add: BeforeVersion_def loop_total)
next
  fix k
  let ?a = "Split (tl check) CHR ''.''" and ?b = "Split (tl cur) CHR ''.''"
  assume h: "k < 3 \<and> (Atoi (?a ! k) = None \<or> Atoi (?b ! k) = None)
        \<and> (\<forall>j. j < k \<longrightarrow> Atoi (?a ! j) \<noteq> None \<and> Atoi (?a ! j) = Atoi (?b ! j))"
  then have "\<forall>j. 0 \<le> j \<and> j < k \<longrightarrow> Atoi (?a ! j) \<noteq> None \<and> Atoi (?a ! j) = Atoi (?b ! j)"
    by blast
  with h assms(3,4) have "BeforeVersion_loop ?a ?b 0 = Inr False"
    by (intro loop_reject[of 0 k]) auto
  with assms(1,2) show "BeforeVersion check cur = Inr False"
    by (simp add: BeforeVersion_def)
qed

text \<open>
  The theorem of C4 at \<open>v1.2.x\<close> against \<open>v1.2.4\<close>: the third component of the first
  string is not numeric, the first two pairs are equal, and the result is false.
\<close>

theorem BeforeVersion_defined_witness:
  "''v1.2.x'' \<noteq> [] \<and> ''v1.2.4'' \<noteq> []
   \<and> length (Split (tl ''v1.2.x'') CHR ''.'') = 3 \<and> length (Split (tl ''v1.2.4'') CHR ''.'') = 3
   \<and> Atoi (Split (tl ''v1.2.x'') CHR ''.'' ! 2) = None
   \<and> Atoi (Split (tl ''v1.2.x'') CHR ''.'' ! 0) = Some 1
   \<and> Atoi (Split (tl ''v1.2.4'') CHR ''.'' ! 0) = Some 1
   \<and> Atoi (Split (tl ''v1.2.x'') CHR ''.'' ! 1) = Some 2
   \<and> Atoi (Split (tl ''v1.2.4'') CHR ''.'' ! 1) = Some 2
   \<and> BeforeVersion ''v1.2.x'' ''v1.2.4'' = Inr False"
proof -
  let ?a = "Split (tl ''v1.2.x'') CHR ''.''" and ?b = "Split (tl ''v1.2.4'') CHR ''.''"
  have a: "?a = [''1'', ''2'', ''x'']" and b: "?b = [''1'', ''2'', ''4'']"
    by simp_all
  have n: "Atoi ''x'' = None" "Atoi ''1'' = Some 1" "Atoi ''2'' = Some 2"
    by (simp_all add: Atoi_def is_digit_def decimal_def digit_val_def intSize_def)
  have len: "3 \<le> length ?a" "3 \<le> length ?b"
    by simp_all
  have eq: "\<forall>j. j < 2 \<longrightarrow> Atoi (?a ! j) \<noteq> None \<and> Atoi (?a ! j) = Atoi (?b ! j)"
    unfolding a b using n by (auto simp: less_Suc_eq numeral_2_eq_2)
  have k: "(2::nat) < 3 \<and> (Atoi (?a ! 2) = None \<or> Atoi (?b ! 2) = None)
      \<and> (\<forall>j. j < 2 \<longrightarrow> Atoi (?a ! j) \<noteq> None \<and> Atoi (?a ! j) = Atoi (?b ! j))"
  proof (intro conjI)
    show "(2::nat) < 3" by simp
    show "Atoi (?a ! 2) = None \<or> Atoi (?b ! 2) = None" using n by simp
    show "\<forall>j. j < 2 \<longrightarrow> Atoi (?a ! j) \<noteq> None \<and> Atoi (?a ! j) = Atoi (?b ! j)" by (rule eq)
  qed
  have "BeforeVersion ''v1.2.x'' ''v1.2.4'' = Inr False"
    using BeforeVersion_defined[of "''v1.2.x''" "''v1.2.4''", OF _ _ len] k by blast
  then show ?thesis
    using n by simp
qed

text \<open>
  Claim C4 as stated fails. A non-numeric component behind the first differing pair
  is never parsed: \<open>v1.2.3\<close> against \<open>v0.x.3\<close> gives true. The empty string has no
  prefix to cut and \<open>check[1:]\<close> panics; with fewer than three components the index
  \<open>aparts[1]\<close> or \<open>aparts[2]\<close> panics once the earlier components were equal, as for
  \<open>v1.2\<close> against itself, while \<open>v\<close> against \<open>v\<close> ends with false at the empty first
  component.
\<close>

theorem BeforeVersion_malformed_counterexample:
  "BeforeVersion ''v1.2.3'' ''v0.x.3'' = Inr True
   \<and> BeforeVersion [] ''v1.2.3'' = Inl SliceBoundsOutOfRange
   \<and> BeforeVersion ''v'' ''v'' = Inr False
   \<and> BeforeVersion ''v1.2'' ''v1.2'' = Inl IndexOutOfRange"
  by (simp add: BeforeVersion_def BeforeVersion_loop.simps Atoi_def is_digit_def decimal_def
      digit_val_def intSize_def)



section \<open>Properties of readers and of \<open>io.Copy\<close>\<close>

lemma Read_drained:
  "content r = [] \<Longrightarrow>
   Read r k = ([], Some (case ending r of None \<Rightarrow> EOF | Some e \<Rightarrow> ReadError e), r)"
proof (induction r arbitrary: k)
  case (Stream d f)
  then show ?case by simp
next
  case (LimitedReader r n)
  show ?case
  proof (cases "n \<le> 0")
    case True
    then show ?thesis by simp
  next
    case False
    with LimitedReader.prems have "content r = []" by simp
    with False LimitedReader.IH show ?thesis by simp
  qed
qed

lemma Read_step:
  "content r \<noteq> [] \<Longrightarrow> Read r (Suc m) = (bs, er, r') \<Longrightarrow>
   bs \<noteq> [] \<and> length bs \<le> Suc m \<and> er = None \<and> content r = bs @ content r' \<and> ending r' = ending r"
proof (induction r arbitrary: m bs er r')
  case (Stream d f)
  then show ?case by auto
next
  case (LimitedReader r n)
  from LimitedReader.prems(1) have pos: "0 < n" and ne: "content r \<noteq> []"
    by (auto simp: take_eq_Nil)
  define k where "k = (if n < int (Suc m) then nat n else Suc m)"
  with pos have "k \<noteq> 0" by auto
  then obtain m' where k: "k = Suc m'"
    by (cases k) auto
  have kn: "int k \<le> n" using pos by (auto simp: k_def)
  have km: "k \<le> Suc m" using pos by (auto simp: k_def)
  obtain cs e q where rd: "Read r (Suc m') = (cs, e, q)"
    by (cases "Read r (Suc m')") auto
  from LimitedReader.IH[OF ne rd]
  have ih: "cs \<noteq> []" "length cs \<le> Suc m'" "e = None" "content r = cs @ content q" "ending q = ending r"
    by auto
  from LimitedReader.prems(2) pos rd k
  have res: "bs = cs" "er = e" "r' = LimitedReader q (n - int (length cs))"
    unfolding k_def by (auto split: if_splits)
  have len: "int (length cs) \<le> n" using ih(2) k kn by simp
  have "take (nat n) (cs @ content q) = cs @ take (nat (n - int (length cs))) (content q)"
    using len by (simp add: nat_diff_distrib')
  moreover have "(int (length (content q)) < n - int (length cs)) = (int (length (content r)) < n)"
    using ih(4) by auto
  ultimately show ?case
    using ih res k km by simp
qed

lemma copy_loop_clean:
  "copy_loop m wfail src acc = (out, None, src') \<Longrightarrow>
   out = acc @ content src \<and> content src' = [] \<and> ending src' = None"
proof (induction m wfail src acc arbitrary: out src' rule: copy_loop.induct)
  case (1 m wfail src written)
  obtain bs er s1 where rd: "Read src (Suc m) = (bs, er, s1)"
    by (cases "Read src (Suc m)") auto
  show ?case
  proof (cases "content src = []")
    case True
    from Read_drained[OF True, of "Suc m"] rd have "bs = []" "s1 = src"
      "er = Some (case ending src of None \<Rightarrow> EOF | Some e \<Rightarrow> ReadError e)"
      by auto
    with "1.prems" rd True show ?thesis
      by (subst (asm) copy_loop.simps) (auto split: option.splits)
  next
    case False
    from Read_step[OF False rd]
    have st: "bs \<noteq> []" "er = None" "content src = bs @ content s1"
      by auto
    show ?thesis
    proof (cases wfail)
      case None
      with "1.prems" rd st have "copy_loop m wfail s1 (written @ bs) = (out, None, src')"
        by (subst (asm) copy_loop.simps) simp
      with "1.IH"[OF rd[symmetric] refl _ st(2)] None st show ?thesis
        by simp
    next
      case (Some e)
      with "1.prems" rd st show ?thesis
        by (subst (asm) copy_loop.simps) simp
    qed
  qed
qed

lemma copy_loop_all:
  "\<exists>src'. copy_loop m None src acc = (acc @ content src, ending src, src')
     \<and> content src' = [] \<and> ending src' = ending src"
proof (induction m "None :: error option" src acc rule: copy_loop.induct)
  case (1 m src written)
  obtain bs er s1 where rd: "Read src (Suc m) = (bs, er, s1)"
    by (cases "Read src (Suc m)") auto
  show ?case
  proof (cases "content src = []")
    case True
    from Read_drained[OF True, of "Suc m"] rd have "bs = []" "s1 = src"
      "er = Some (case ending src of None \<Rightarrow> EOF | Some e \<Rightarrow> ReadError e)"
      by auto
    with rd True show ?thesis
      by (subst copy_loop.simps) (auto split: option.splits)
  next
    case False
    from Read_step[OF False rd]
    have st: "bs \<noteq> []" "er = None" "content src = bs @ content s1" "ending s1 = ending src"
      by auto
    from "1.hyps"[OF rd[symmetric] refl _ st(2)]
    obtain q where "copy_loop m None s1 (written @ bs) = ((written @ bs) @ content s1, ending s1, q)"
      "content q = []" "ending q = ending s1"
      by auto
    with rd st show ?thesis
      by (subst copy_loop.simps) simp
  qed
qed

lemma Read_at_eof:
  "content r = [] \<Longrightarrow> ending r = None \<Longrightarrow> Read r k = ([], Some EOF, r)"
  by (simp add: Read_drained)

section \<open>Properties of \<open>httpGet\<close> and \<open>httpFetch\<close>\<close>

lemma io_Copy_hello: "io_Copy None (Stream ''hello'' None) = (''hello'', None, Stream [] None)"
  by (simp add: io_Copy_def copy_loop.simps)

lemma httpFetch_quiet_world: "httpFetch quiet_world ''https://ipfs.io/x'' =
   (Returns (Inr (LimitedReader (Stream [] None) 536870912)),
    [HttpHead ''https://ipfs.io/x'', TempCreate, HttpGet ''https://ipfs.io/x'', TempRemove ''/tmp/ipfs042''])"
  by (simp add: httpFetch_def httpGet_def quiet_world_def io_Copy_hello Atoi_def is_digit_def decimal_def
      digit_val_def intSize_def newLimitReadCloser_def fetchSizeLimit_def)

lemma httpGet_head_failure:
  "Head w url = Inl e \<Longrightarrow> fst (httpGet w url) = Panics NilDereference"
  by (simp add: httpGet_def split: sum.splits)

lemma httpGet_Returns_Inr:
  assumes "fst (httpGet w url) = Returns (Inr resp')"
  obtains h sz name resp written body' where
    "Head w url = Inr h" "Atoi (ContentLength h) = Some sz" "TempFile w = Inr name"
    "NewRequest w url = None" "Do w url = Inr resp"
    "io_Copy (temp_write_error w) (Body resp) = (written, None, body')"
    "progress_receives w" "resp' = resp\<lparr>Body := body'\<rparr>"
    "snd (httpGet w url) = [HttpHead url, TempCreate, HttpGet url, TempRemove name]"
  using assms unfolding httpGet_def
  by (auto simp: Let_def split: sum.splits option.splits prod.splits if_splits)

lemma httpFetch_Returns_Inr:
  assumes "fst (httpFetch w url) = Returns (Inr rc)"
  obtains resp' where "fst (httpGet w url) = Returns (Inr resp')"
    "rc = newLimitReadCloser (Body resp') fetchSizeLimit"
    "snd (httpFetch w url) = snd (httpGet w url)"
  using assms unfolding httpFetch_def
  by (auto split: prod.splits outcome.splits sum.splits if_splits option.splits)

text \<open>
  Claim C2. Whenever \<open>httpFetch\<close> returns a stream, every read on it gives no bytes and
  end of stream, and reading it to the end yields nothing: \<open>io.Copy\<close> in \<open>httpGet\<close> has
  taken the whole body of the response into the temporary file, whose removal is the
  last thing \<open>httpGet\<close> did.
\<close>

theorem httpFetch_stream_is_drained:
  assumes "fst (httpFetch w url) = Returns (Inr rc)"
  shows "(\<forall>k. Read rc k = ([], Some EOF, rc)) \<and> ReadAll rc = ([], None, rc)
    \<and> (\<exists>resp body' name.
          Do w url = Inr resp
          \<and> io_Copy (temp_write_error w) (Body resp) = (content (Body resp), None, body')
          \<and> rc = newLimitReadCloser body' fetchSizeLimit
          \<and> TempFile w = Inr name
          \<and> last (snd (httpFetch w url)) = TempRemove name)"
proof -
  from assms obtain resp' where g: "fst (httpGet w url) = Returns (Inr resp')"
    and rc: "rc = newLimitReadCloser (Body resp') fetchSizeLimit"
    and tr: "snd (httpFetch w url) = snd (httpGet w url)"
    by (rule httpFetch_Returns_Inr)
  from g obtain name resp written body' where
    d: "Do w url = Inr resp" and tf: "TempFile w = Inr name"
    and cp: "io_Copy (temp_write_error w) (Body resp) = (written, None, body')"
    and r': "resp' = resp\<lparr>Body := body'\<rparr>"
    and ev: "snd (httpGet w url) = [HttpHead url, TempCreate, HttpGet url, TempRemove name]"
    by (rule httpGet_Returns_Inr)
  from cp have cl: "written = content (Body resp)" "content body' = []" "ending body' = None"
    using copy_loop_clean[of _ _ _ "[]"] by (auto simp: io_Copy_def)
  have c: "content rc = []" and e: "ending rc = None"
    using rc r' cl by (simp_all add: newLimitReadCloser_def)
  have rd: "Read rc k = ([], Some EOF, rc)" for k
    using c e by (rule Read_at_eof)
  have "ReadAll rc = ([], None, rc)"
    unfolding ReadAll_def by (subst copy_loop.simps) (simp add: rd)
  with rd d tf cp cl rc r' tr ev show ?thesis
    by simp
qed

text \<open>
  The theorem of C2 in a world whose gateway answers \<open>200 OK\<close> with the body \<open>hello\<close>: the
  stream returned is the limited reader around the emptied body.
\<close>

theorem httpFetch_stream_is_drained_witness:
  "fst (httpFetch quiet_world ''https://ipfs.io/x'')
     = Returns (Inr (LimitedReader (Stream [] None) 536870912))
   \<and> Do quiet_world ''https://ipfs.io/x''
     = Inr \<lparr> StatusCode = 200, Status = ''200 OK'', Body = Stream ''hello'' None \<rparr>
   \<and> ReadAll (LimitedReader (Stream [] None) 536870912)
     = ([], None, LimitedReader (Stream [] None) 536870912)"
proof -
  have f: "fst (httpFetch quiet_world ''https://ipfs.io/x'')
     = Returns (Inr (LimitedReader (Stream [] None) 536870912))"
    by (simp add: httpFetch_quiet_world)
  have d: "Do quiet_world ''https://ipfs.io/x''
     = Inr \<lparr> StatusCode = 200, Status = ''200 OK'', Body = Stream ''hello'' None \<rparr>"
    by (simp add: quiet_world_def)
  from httpFetch_stream_is_drained[OF f] f d show ?thesis
    by blast
qed

text \<open>
  Claim C3 fails on the code. When \<open>http.Head\<close> fails, \<open>httpGet\<close> never returns an error:
  it panics on a nil dereference, at \<open>out.Name()\<close> when \<open>ioutil.TempFile\<close> failed too and at
  \<open>headResponse.Header\<close> otherwise, and \<open>httpFetch\<close> with it.
\<close>

theorem httpGet_head_failure_panics:
  assumes "Head w url = Inl e"
  shows "fst (httpGet w url) = Panics NilDereference
    \<and> fst (httpFetch w url) = Panics NilDereference"
proof -
  from assms have "fst (httpGet w url) = Panics NilDereference"
    by (rule httpGet_head_failure)
  then show ?thesis
    by (cases "httpGet w url") (simp add: httpFetch_def)
qed

text \<open>
  The theorem of C3 at a gateway that refuses the connection.
\<close>

theorem httpGet_head_failure_panics_witness:
  "Head (quiet_world\<lparr>Head := \<lambda>url. Inl ''dial tcp 104.18.40.19:443: connect: connection refused''\<rparr>)
      ''https://ipfs.io/ipns/dist.ipfs.io''
     = Inl ''dial tcp 104.18.40.19:443: connect: connection refused''
   \<and> fst (httpFetch (quiet_world\<lparr>Head := \<lambda>url. Inl ''dial tcp 104.18.40.19:443: connect: connection refused''\<rparr>)
      ''https://ipfs.io/ipns/dist.ipfs.io'') = Panics NilDereference"
proof -
  let ?w = "quiet_world\<lparr>Head := \<lambda>url. Inl ''dial tcp 104.18.40.19:443: connect: connection refused''\<rparr>"
  have h: "Head ?w ''https://ipfs.io/ipns/dist.ipfs.io''
     = Inl ''dial tcp 104.18.40.19:443: connect: connection refused''"
    by simp
  from httpGet_head_failure_panics[OF h] h show ?thesis
    by blast
qed

text \<open>
  Claim C8 fails on the code. When \<open>httpGet\<close> hands back a response with a status of 400
  or more, \<open>httpFetch\<close> returns no stream and an error made of the status, a colon and
  nothing else: the body was emptied by \<open>io.Copy\<close> before \<open>ioutil.ReadAll\<close> reads it.
\<close>

theorem httpFetch_error_status_drops_body:
  assumes "fst (httpGet w url) = Returns (Inr resp)" and "400 \<le> StatusCode resp"
  shows "fst (httpFetch w url) = Returns (Inl (Status resp @ '': ''))"
proof -
  from assms(1) obtain r0 written body' where
    cp: "io_Copy (temp_write_error w) (Body r0) = (written, None, body')"
    and r': "resp = r0\<lparr>Body := body'\<rparr>"
    by (rule httpGet_Returns_Inr)
  from cp have cl: "content body' = []" "ending body' = None"
    using copy_loop_clean[of _ _ _ "[]"] by (auto simp: io_Copy_def)
  have "Read body' k = ([], Some EOF, body')" for k
    using cl by (rule Read_at_eof)
  then have "ReadAll (Body resp) = ([], None, Body resp)"
    unfolding ReadAll_def using r' by (subst copy_loop.simps) simp
  with assms show ?thesis
    by (cases "httpGet w url") (simp add: httpFetch_def)
qed

text \<open>
  The theorem of C8 at a gateway answering \<open>404 Not Found\<close> with the body \<open>not found\<close>:
  the error is \<open>404 Not Found: \<close> and the body text is not in it.
\<close>

theorem httpFetch_error_status_drops_body_witness:
  "fst (httpGet (quiet_world\<lparr>Do := \<lambda>url. Inr \<lparr> StatusCode = 404, Status = ''404 Not Found'',
                                                  Body = Stream ''not found'' None \<rparr>\<rparr>)
          ''https://ipfs.io/missing'')
     = Returns (Inr \<lparr> StatusCode = 404, Status = ''404 Not Found'', Body = Stream [] None \<rparr>)
   \<and> fst (httpFetch (quiet_world\<lparr>Do := \<lambda>url. Inr \<lparr> StatusCode = 404, Status = ''404 Not Found'',
                                                      Body = Stream ''not found'' None \<rparr>\<rparr>)
          ''https://ipfs.io/missing'')
     = Returns (Inl ''404 Not Found: '')"
proof -
  let ?w = "quiet_world\<lparr>Do := \<lambda>url. Inr \<lparr> StatusCode = 404, Status = ''404 Not Found'',
                                            Body = Stream ''not found'' None \<rparr>\<rparr>"
  let ?r = "\<lparr> StatusCode = 404, Status = ''404 Not Found'', Body = Stream [] None \<rparr>"
  have cp: "io_Copy None (Stream ''not found'' None) = (''not found'', None, Stream [] None)"
    by (simp add: io_Copy_def copy_loop.simps)
  have g: "fst (httpGet ?w ''https://ipfs.io/missing'') = Returns (Inr ?r)"
    by (simp add: httpGet_def quiet_world_def cp Atoi_def is_digit_def decimal_def
        digit_val_def intSize_def)
  have s: "400 \<le> StatusCode ?r"
    by simp
  from httpFetch_error_status_drops_body[OF g s] g show ?thesis
    by simp
qed

section \<open>Properties of \<open>Fetch\<close> and of the size limit\<close>

lemma Fetch_Returns_Inr:
  assumes "fst (Fetch w p) = Returns (Inr rc)"
  shows "\<exists>r. rc = newLimitReadCloser r fetchSizeLimit"
proof (cases "ApiEndpoint w (IpfsDir w)")
  case (Inl e)
  with assms have "fst (httpFetch w (GlobalGatewayUrl w @ p)) = Returns (Inr rc)"
    by (simp add: Fetch_def)
  then show ?thesis
    by (rule httpFetch_Returns_Inr) blast
next
  case (Inr ep)
  show ?thesis
  proof (cases "IsUp w ep")
    case True
    with assms Inr show ?thesis
      by (auto simp: Fetch_def split: sum.splits)
  next
    case False
    with assms Inr have "fst (httpFetch w (GlobalGatewayUrl w @ p)) = Returns (Inr rc)"
      by (simp add: Fetch_def split: prod.splits)
    then show ?thesis
      by (rule httpFetch_Returns_Inr) blast
  qed
qed

text \<open>
  Claim C5. A reader that still holds \<open>N + K\<close> bytes with \<open>K > 0\<close>, wrapped by
  \<open>newLimitReadCloser\<close> with the ceiling \<open>N\<close> and read to the end with a buffer of any
  size, gives exactly its first \<open>N\<close> bytes and then end of stream, with no error. The
  ceiling \<open>fetchSizeLimit\<close> is \<open>1024 * 1024 * 512\<close>, and every stream \<open>Fetch\<close> returns, from
  the daemon or from the gateway, is wrapped with it.
\<close>

theorem limit_reader_truncates:
  assumes "0 \<le> N" and "length (content src) = nat N + K" and "0 < K"
  shows "(\<exists>src'. copy_loop m None (newLimitReadCloser src N) [] = (take (nat N) (content src), None, src')
            \<and> (\<forall>k. Read src' k = ([], Some EOF, src')))
    \<and> length (take (nat N) (content src)) = nat N
    \<and> fetchSizeLimit = 1024 * 1024 * 512
    \<and> (fst (Fetch w p) = Returns (Inr rc) \<longrightarrow> (\<exists>r. rc = newLimitReadCloser r (1024 * 1024 * 512)))"
proof -
  let ?l = "newLimitReadCloser src N"
  have c: "content ?l = take (nat N) (content src)"
    by (simp add: newLimitReadCloser_def)
  have e: "ending ?l = None"
    using assms by (simp add: newLimitReadCloser_def)
  from copy_loop_all[of m ?l "[]"] obtain src' where
    cp: "copy_loop m None ?l [] = ([] @ content ?l, ending ?l, src')"
    and d: "content src' = []" "ending src' = ending ?l"
    by blast
  have "Read src' k = ([], Some EOF, src')" for k
    using d e by (simp add: Read_at_eof)
  with cp c e have 1: "\<exists>src'. copy_loop m None ?l [] = (take (nat N) (content src), None, src')
            \<and> (\<forall>k. Read src' k = ([], Some EOF, src'))"
    by simp
  have 2: "length (take (nat N) (content src)) = nat N"
    using assms by simp
  have 3: "fst (Fetch w p) = Returns (Inr rc) \<longrightarrow> (\<exists>r. rc = newLimitReadCloser r (1024 * 1024 * 512))"
    using Fetch_Returns_Inr[of w p rc] by (simp add: fetchSizeLimit_def)
  from 1 2 3 show ?thesis
    by (simp add: fetchSizeLimit_def)
qed

text \<open>
  The theorem of C5 for the five bytes \<open>hello\<close> under a ceiling of three, read byte by
  byte, and for the stream \<open>Fetch\<close> returns from the gateway.
\<close>

theorem limit_reader_truncates_witness:
  "(0::int) \<le> 3 \<and> length (content (Stream ''hello'' None)) = nat 3 + 2 \<and> (0::nat) < 2
   \<and> copy_loop 0 None (newLimitReadCloser (Stream ''hello'' None) 3) []
       = (''hel'', None, LimitedReader (Stream ''lo'' None) 0)
   \<and> (\<exists>src'. copy_loop 0 None (newLimitReadCloser (Stream ''hello'' None) 3) []
          = (take (nat 3) (content (Stream ''hello'' None)), None, src')
        \<and> (\<forall>k. Read src' k = ([], Some EOF, src')))
   \<and> fst (Fetch quiet_world ''/ipns/dist.ipfs.io'')
       = Returns (Inr (LimitedReader (Stream [] None) 536870912))
   \<and> (\<exists>r. LimitedReader (Stream [] None) 536870912 = newLimitReadCloser r (1024 * 1024 * 512))"
proof -
  have h: "(0::int) \<le> 3" "length (content (Stream ''hello'' None)) = nat 3 + 2" "(0::nat) < 2"
    by simp_all
  have ev: "copy_loop 0 None (newLimitReadCloser (Stream ''hello'' None) 3) []
       = (''hel'', None, LimitedReader (Stream ''lo'' None) 0)"
    by (simp add: copy_loop.simps newLimitReadCloser_def)
  have cp: "io_Copy None (Stream ''hello'' None) = (''hello'', None, Stream [] None)"
    by (simp add: io_Copy_def copy_loop.simps)
  have f: "fst (Fetch quiet_world ''/ipns/dist.ipfs.io'')
       = Returns (Inr (LimitedReader (Stream [] None) 536870912))"
    by (simp add: Fetch_def ApiEndpoint_def IpfsDir_def httpFetch_def httpGet_def quiet_world_def
        cp Atoi_def is_digit_def decimal_def digit_val_def intSize_def newLimitReadCloser_def
        fetchSizeLimit_def)
  note t = limit_reader_truncates[OF h, of 0 quiet_world "''/ipns/dist.ipfs.io''"
      "LimitedReader (Stream [] None) 536870912"]
  from t have a: "\<exists>src'. copy_loop 0 None (newLimitReadCloser (Stream ''hello'' None) 3) []
          = (take (nat 3) (content (Stream ''hello'' None)), None, src')
        \<and> (\<forall>k. Read src' k = ([], Some EOF, src'))"
    by blast
  from t f have b: "\<exists>r. LimitedReader (Stream [] None) 536870912
      = newLimitReadCloser r (1024 * 1024 * 512)"
    by blast
  show ?thesis
    by (intro conjI) (rule h ev f a b)+
qed

text \<open>
  What \<open>ApiEndpoint\<close> answers: the error of reading the api file, the format error when
  the contents do not have five fields, and otherwise the third field, a colon and the
  fifth field.
\<close>

lemma ApiEndpoint_cases:
  "ReadFile w (Join w dir ''api'') = Inl e \<Longrightarrow> ApiEndpoint w dir = Inl e"
  "ReadFile w (Join w dir ''api'') = Inr val \<Longrightarrow> length (Split val CHR ''/'') \<noteq> 5 \<Longrightarrow>
     ApiEndpoint w dir = Inl (''incorrectly formatted api string: '' @ Quote w val)"
  "ReadFile w (Join w dir ''api'') = Inr val \<Longrightarrow> length (Split val CHR ''/'') = 5 \<Longrightarrow>
     ApiEndpoint w dir = Inr (Split val CHR ''/'' ! 2 @ '':'' @ Split val CHR ''/'' ! 4)"
  by (simp_all add: ApiEndpoint_def Let_def)

text \<open>
  Claim C6. When the api file cannot be read, or its contents do not split into exactly
  five fields at the slashes, or the daemon at the endpoint is not up, \<open>Fetch\<close> ends as
  \<open>httpFetch\<close> on the gateway URL ends, whatever reading the api file and probing the
  daemon answered, and the \<open>HEAD\<close> request to the gateway is among its requests.
\<close>

theorem Fetch_falls_back:
  assumes "(\<exists>e. ReadFile w (Join w (IpfsDir w) ''api'') = Inl e)
     \<or> (\<exists>val. ReadFile w (Join w (IpfsDir w) ''api'') = Inr val
           \<and> (length (Split val CHR ''/'') \<noteq> 5
                \<or> \<not> IsUp w (Split val CHR ''/'' ! 2 @ '':'' @ Split val CHR ''/'' ! 4)))"
  shows "fst (Fetch w p) = fst (httpFetch w (GlobalGatewayUrl w @ p))
    \<and> fst (Fetch w p) = fst (httpFetch (w\<lparr>ReadFile := rf, IsUp := up\<rparr>) (GlobalGatewayUrl w @ p))
    \<and> (\<exists>t. snd (Fetch w p) = t @ snd (httpFetch w (GlobalGatewayUrl w @ p)))
    \<and> HttpHead (GlobalGatewayUrl w @ p) \<in> set (snd (Fetch w p))"
proof -
  have "httpGet (w\<lparr>ReadFile := rf, IsUp := up\<rparr>) u = httpGet w u" for u
    by (simp add: httpGet_def NumError_def
        cong: option.case_cong sum.case_cong prod.case_cong if_cong)
  then have ind: "httpFetch (w\<lparr>ReadFile := rf, IsUp := up\<rparr>) u = httpFetch w u" for u
    by (simp add: httpFetch_def)
  have hd: "HttpHead u \<in> set (snd (httpFetch w u))" for u
    unfolding httpFetch_def httpGet_def
    by (auto simp: Let_def split: sum.splits option.splits prod.splits outcome.splits)
  let ?g = "httpFetch w (GlobalGatewayUrl w @ p)"
  have "Fetch w p = ?g \<or> (\<exists>ep. Fetch w p = (fst ?g, DaemonIsUp ep # snd ?g))"
    using assms
    by (auto simp: Fetch_def ApiEndpoint_def Let_def split: sum.splits prod.splits)
  then show ?thesis
    using hd[of "GlobalGatewayUrl w @ p"] ind by auto
qed

text \<open>
  The theorem of C6 with no api file, and with an api file naming a daemon that is
  not up.
\<close>

theorem Fetch_falls_back_witness:
  "ReadFile quiet_world (Join quiet_world (IpfsDir quiet_world) ''api'')
     = Inl ''open /home/user/.ipfs/api: no such file or directory''
   \<and> fst (Fetch quiet_world ''/ipns/dist.ipfs.io'')
     = fst (httpFetch quiet_world ''https://ipfs.io/ipns/dist.ipfs.io'')
   \<and> HttpHead ''https://ipfs.io/ipns/dist.ipfs.io'' \<in> set (snd (Fetch quiet_world ''/ipns/dist.ipfs.io''))
   \<and> ReadFile stopped_daemon_world (Join stopped_daemon_world (IpfsDir stopped_daemon_world) ''api'')
     = Inr ''/ip4/127.0.0.1/tcp/5001''
   \<and> IsUp stopped_daemon_world ''127.0.0.1:5001'' = False
   \<and> fst (Fetch stopped_daemon_world ''/ipns/dist.ipfs.io'')
     = fst (httpFetch stopped_daemon_world ''https://ipfs.io/ipns/dist.ipfs.io'')"
proof -
  let ?q = quiet_world and ?s = stopped_daemon_world
  have r: "ReadFile ?q (Join ?q (IpfsDir ?q) ''api'')
     = Inl ''open /home/user/.ipfs/api: no such file or directory''"
    by (simp add: quiet_world_def IpfsDir_def)
  then have a: "(\<exists>e. ReadFile ?q (Join ?q (IpfsDir ?q) ''api'') = Inl e)
     \<or> (\<exists>val. ReadFile ?q (Join ?q (IpfsDir ?q) ''api'') = Inr val
           \<and> (length (Split val CHR ''/'') \<noteq> 5
                \<or> \<not> IsUp ?q (Split val CHR ''/'' ! 2 @ '':'' @ Split val CHR ''/'' ! 4)))"
    by blast
  have g: "GlobalGatewayUrl ?q @ ''/ipns/dist.ipfs.io'' = ''https://ipfs.io/ipns/dist.ipfs.io''"
    "GlobalGatewayUrl ?s @ ''/ipns/dist.ipfs.io'' = ''https://ipfs.io/ipns/dist.ipfs.io''"
    by (simp_all add: quiet_world_def stopped_daemon_world_def daemon_world_def)
  have r': "ReadFile ?s (Join ?s (IpfsDir ?s) ''api'') = Inr ''/ip4/127.0.0.1/tcp/5001''"
    by (simp add: stopped_daemon_world_def daemon_world_def)
  have sp: "Split ''/ip4/127.0.0.1/tcp/5001'' CHR ''/'' = [[], ''ip4'', ''127.0.0.1'', ''tcp'', ''5001'']"
    by simp
  have u: "IsUp ?s ''127.0.0.1:5001'' = False"
    by (simp add: stopped_daemon_world_def)
  have b: "(\<exists>e. ReadFile ?s (Join ?s (IpfsDir ?s) ''api'') = Inl e)
     \<or> (\<exists>val. ReadFile ?s (Join ?s (IpfsDir ?s) ''api'') = Inr val
           \<and> (length (Split val CHR ''/'') \<noteq> 5
                \<or> \<not> IsUp ?s (Split val CHR ''/'' ! 2 @ '':'' @ Split val CHR ''/'' ! 4)))"
    using r' u sp by simp
  from Fetch_falls_back[OF a, of "''/ipns/dist.ipfs.io''"]
    Fetch_falls_back[OF b, of "''/ipns/dist.ipfs.io''"] r r' u
  show ?thesis
    unfolding g by blast
qed

text \<open>
  Claim C7. When an endpoint is resolved and the daemon there is up, \<open>Fetch\<close> talks to
  the daemon only: no \<open>HEAD\<close> and no \<open>GET\<close> request is issued. It returns the daemon's
  stream wrapped with the ceiling, or the daemon's error as it is.
\<close>

theorem Fetch_local_daemon_only:
  assumes "ApiEndpoint w (IpfsDir w) = Inr ep" and "IsUp w ep"
  shows "snd (Fetch w p) = [DaemonIsUp ep, DaemonCat ep p]
    \<and> (\<forall>url. HttpHead url \<notin> set (snd (Fetch w p)) \<and> HttpGet url \<notin> set (snd (Fetch w p)))
    \<and> fst (Fetch w p) =
        Returns (case Cat w ep p of
                   Inl err \<Rightarrow> Inl err
                 | Inr rc \<Rightarrow> Inr (newLimitReadCloser rc fetchSizeLimit))"
  using assms by (simp add: Fetch_def split: sum.splits)

text \<open>
  The theorem of C7 with a daemon at \<open>127.0.0.1:5001\<close>, for a path it serves and for a
  path it does not have.
\<close>

theorem Fetch_local_daemon_only_witness:
  "ApiEndpoint daemon_world (IpfsDir daemon_world) = Inr ''127.0.0.1:5001''
   \<and> IsUp daemon_world ''127.0.0.1:5001''
   \<and> Fetch daemon_world ''/ipns/dist.ipfs.io''
       = (Returns (Inr (newLimitReadCloser (Stream ''versions'' None) fetchSizeLimit)),
          [DaemonIsUp ''127.0.0.1:5001'', DaemonCat ''127.0.0.1:5001'' ''/ipns/dist.ipfs.io''])
   \<and> Fetch daemon_world ''/ipfs/missing''
       = (Returns (Inl ''merkledag: not found''),
          [DaemonIsUp ''127.0.0.1:5001'', DaemonCat ''127.0.0.1:5001'' ''/ipfs/missing''])"
proof -
  have a: "ApiEndpoint daemon_world (IpfsDir daemon_world) = Inr ''127.0.0.1:5001''"
    by (simp add: ApiEndpoint_def daemon_world_def)
  have u: "IsUp daemon_world ''127.0.0.1:5001''"
    by (simp add: daemon_world_def)
  have c: "Cat daemon_world ''127.0.0.1:5001'' ''/ipns/dist.ipfs.io'' = Inr (Stream ''versions'' None)"
    "Cat daemon_world ''127.0.0.1:5001'' ''/ipfs/missing'' = Inl ''merkledag: not found''"
    by (simp_all add: daemon_world_def)
  from Fetch_local_daemon_only[OF a u, of "''/ipns/dist.ipfs.io''"]
    Fetch_local_daemon_only[OF a u, of "''/ipfs/missing''"] a u c
  show ?thesis
    by (simp add: prod_eq_iff)
qed

section \<open>Properties of \<open>RunCmd\<close>\<close>

text \<open>
  Claim C10. When the command succeeds, \<open>RunCmd\<close> panics at \<open>out[len(out)-1]\<close> if the
  combined output is empty, and otherwise returns the output without its final
  newline; so it returns a value exactly when the output is not empty.
\<close>

theorem RunCmd_empty_output:
  assumes "CombinedOutput w p bin args = (out, None)"
  shows "RunCmd w p bin args =
      (if out = [] then Panics IndexOutOfRange
       else Returns (Inr (if last out = CHR 0x0A then butlast out else out)))
    \<and> ((\<exists>r. RunCmd w p bin args = Returns r) = (out \<noteq> []))"
  using assms by (simp add: RunCmd_def)

text \<open>
  The theorem of C10 for a command that prints nothing and for one that prints
  \<open>0.4.23\<close> and a newline.
\<close>

theorem RunCmd_empty_output_witness:
  "CombinedOutput quiet_world ''/home/user/.ipfs'' ''ipfs'' [''version''] = ([], None)
   \<and> RunCmd quiet_world ''/home/user/.ipfs'' ''ipfs'' [''version''] = Panics IndexOutOfRange
   \<and> RunCmd (quiet_world\<lparr>CombinedOutput := \<lambda>p bin args. (''0.4.23'' @ [CHR 0x0A], None)\<rparr>)
        ''/home/user/.ipfs'' ''ipfs'' [''version''] = Returns (Inr ''0.4.23'')"
proof -
  let ?w = "quiet_world\<lparr>CombinedOutput := \<lambda>p bin args. (''0.4.23'' @ [CHR 0x0A], None)\<rparr>"
  have e: "CombinedOutput quiet_world ''/home/user/.ipfs'' ''ipfs'' [''version''] = ([], None)"
    by (simp add: quiet_world_def)
  have n: "CombinedOutput ?w ''/home/user/.ipfs'' ''ipfs'' [''version'']
      = (''0.4.23'' @ [CHR 0x0A], None)"
    by simp
  from RunCmd_empty_output[OF e] RunCmd_empty_output[OF n] e show ?thesis
    by simp
qed

end
